theory Spec2Isabelle
  imports Complex_Main
begin

section \<open>Exceptions\<close>

text \<open>
  The Python exceptions that \<^verbatim>\<open>parser/base_network.py\<close> can raise by itself. The two
  \<^verbatim>\<open>assert\<close> statements of the constructor and the one of \<^verbatim>\<open>parse\<close> raise
  \<^verbatim>\<open>AssertionError\<close> with the message of the source; the specification calls them
  ConfigurationError, ConsistencyError and UsageError.
\<close>

datatype exn =
    AssertionError string
  | AttributeError string
  | UnboundLocalError string
  | TypeError
  | IndexError
  | ValueError
  | ZeroDivisionError
  | KeyboardInterrupt

section \<open>Configuration\<close>

text \<open>
  The values that the properties at the end of the class read from the configuration
  (\<^verbatim>\<open>getlist\<close>, \<^verbatim>\<open>getint\<close>, \<^verbatim>\<open>getboolean\<close>, \<^verbatim>\<open>getstr\<close>), and the name of the class.
\<close>

record config =
  model_classname :: string
  save_dir :: string
  input_network_classes :: "string list"
  input_vocab_classes :: "string list"
  output_vocab_classes :: "string list"
  throughput_vocab_classes :: "string list"
  print_every :: int
  max_steps :: int
  max_steps_without_improvement :: int
  switch_optimizers :: bool
  save_model :: bool
  parse_datasets :: bool

section \<open>Vocabularies and the constructor\<close>

text \<open>
  A vocabulary object is identified by its class name and a serial number (its identity:
  Python's \<^verbatim>\<open>is\<close> is equality of the record). \<open>population\<close> says how the object got
  its contents: \<^verbatim>\<open>vocab.load() or vocab.count(self.train_conllus)\<close> loads persisted data
  and counts the training corpora only when loading returns false; the identifier
  vocabulary is created without either.
\<close>

datatype population = Unpopulated | Loaded | Counted

record vocab =
  classname :: string
  ident :: nat
  population :: population

text \<open>
  Of a sub-model the constructor reads the class name and the vocabularies; the list gives
  the order in which the set is iterated.
\<close>

record input_network =
  network_classname :: string
  vocabs :: "vocab list"

text \<open>
  What the constructor finds outside the file: the classes that the module
  \<^verbatim>\<open>parser.structs.vocabs\<close> defines (\<^verbatim>\<open>getattr\<close> raises for any other name) and the
  classes for which \<^verbatim>\<open>load\<close> finds persisted data.
\<close>

record registry_env =
  vocab_module :: "string list"
  persisted :: "string list"

record base_network =
  id_vocab :: vocab
  input_vocabs :: "vocab set"
  output_vocabs :: "vocab set"
  throughput_vocabs :: "vocab set"
  all_vocabs :: "vocab set"
  next_ident :: nat

type_synonym extant = "(string \<times> vocab) list"

text \<open>
  Lines 59 to 64: the vocabularies of one sub-model enter the dictionary. The
  \<^verbatim>\<open>print\<close> of the class name is left out.
\<close>

fun collect_vocabs :: "extant \<Rightarrow> vocab list \<Rightarrow> exn + extant" where
  "collect_vocabs ex [] = Inr ex"
| "collect_vocabs ex (v # vs) =
     (case map_of ex (classname v) of
        Some w \<Rightarrow>
          if v = w then collect_vocabs ex vs
          else Inl (AssertionError
                 (''Two input networks have different instances of '' @ classname v))
      | None \<Rightarrow> collect_vocabs (ex @ [(classname v, v)]) vs)"

text \<open>Lines 58 to 64: the loop over the sub-models.\<close>

fun collect_networks :: "extant \<Rightarrow> input_network list \<Rightarrow> exn + extant" where
  "collect_networks ex [] = Inr ex"
| "collect_networks ex (n # ns) =
     (case collect_vocabs ex (vocabs n) of
        Inl e \<Rightarrow> Inl e
      | Inr ex' \<Rightarrow> collect_networks ex' ns)"

text \<open>
  \<^verbatim>\<open>VocabClass = getattr(vocabs, name); vocab = VocabClass(config=config);
  vocab.load() or vocab.count(self.train_conllus)\<close>
\<close>

definition new_vocab :: "registry_env \<Rightarrow> string \<Rightarrow> nat \<Rightarrow> vocab" where
  "new_vocab env c n =
     \<lparr>classname = c, ident = n,
      population = (if c \<in> set (persisted env) then Loaded else Counted)\<rparr>"

text \<open>
  The three loops of lines 72 to 103 have the same body: a class of the list is looked up
  in the dictionary, and created, populated and entered when it is absent. The state is
  the dictionary, the set being built and the next free serial number.
\<close>

fun resolve_classes ::
  "registry_env \<Rightarrow> string list \<Rightarrow> extant \<times> vocab set \<times> nat \<Rightarrow> exn + extant \<times> vocab set \<times> nat"
where
  "resolve_classes env [] s = Inr s"
| "resolve_classes env (c # cs) (ex, S, n) =
     (case map_of ex c of
        Some v \<Rightarrow> resolve_classes env cs (ex, insert v S, n)
      | None \<Rightarrow>
          if c \<in> set (vocab_module env)
          then resolve_classes env cs
                 (ex @ [(c, new_vocab env c n)], insert (new_vocab env c n) S, Suc n)
          else Inl (AttributeError c))"

text \<open>Lines 66 to 70: the identifier vocabulary.\<close>

definition resolve_id_vocab :: "extant \<Rightarrow> nat \<Rightarrow> vocab \<times> extant \<times> nat" where
  "resolve_id_vocab ex n =
     (case map_of ex ''IDIndexVocab'' of
        Some v \<Rightarrow> (v, ex, n)
      | None \<Rightarrow>
          (let v = \<lparr>classname = ''IDIndexVocab'', ident = n, population = Unpopulated\<rparr>
           in (v, ex @ [(''IDIndexVocab'', v)], Suc n)))"

text \<open>
  \<^verbatim>\<open>BaseNetwork.__init__\<close>. The last argument is the next free serial number for new
  objects. The third loop iterates \<^verbatim>\<open>self.output_vocab_classes\<close>, as line 95 does.
\<close>

definition init ::
  "registry_env \<Rightarrow> config \<Rightarrow> input_network list \<Rightarrow> nat \<Rightarrow> exn + base_network"
where
  "init env cfg input_networks n0 =
     (if set (map network_classname input_networks) \<noteq> set (input_network_classes cfg)
      then Inl (AssertionError
             (''Not all input networks were passed in to '' @ model_classname cfg))
      else
        case collect_networks [] input_networks of
          Inl e \<Rightarrow> Inl e
        | Inr ex0 \<Rightarrow>
            (case resolve_id_vocab ex0 n0 of
               (idv, ex1, n1) \<Rightarrow>
                 (case resolve_classes env (input_vocab_classes cfg) (ex1, {}, n1) of
                    Inl e \<Rightarrow> Inl e
                  | Inr (ex2, ins, n2) \<Rightarrow>
                      (case resolve_classes env (output_vocab_classes cfg) (ex2, {}, n2) of
                         Inl e \<Rightarrow> Inl e
                       | Inr (ex3, outs, n3) \<Rightarrow>
                           (case resolve_classes env (output_vocab_classes cfg)
                                   (ex3, {}, n3) of
                              Inl e \<Rightarrow> Inl e
                            | Inr (ex4, thrus, n4) \<Rightarrow>
                                Inr \<lparr>id_vocab = idv, input_vocabs = ins,
                                     output_vocabs = outs, throughput_vocabs = thrus,
                                     all_vocabs = snd ` set ex4, next_ident = n4\<rparr>)))))"

section \<open>Paths\<close>

text \<open>
  \<^verbatim>\<open>os.path.join\<close> and \<^verbatim>\<open>os.path.split\<close> of the POSIX path module, for two
  components: an absolute second component replaces the first; a separator is inserted
  unless the first component is empty or ends with one. \<^verbatim>\<open>split\<close> cuts after the last
  separator and strips the trailing separators of a head that is not made of separators
  only.
\<close>

definition os_path_join :: "string \<Rightarrow> string \<Rightarrow> string" where
  "os_path_join a b =
     (if b \<noteq> [] \<and> hd b = CHR ''/'' then b
      else if a = [] \<or> last a = CHR ''/'' then a @ b
      else a @ ''/'' @ b)"

definition os_path_split :: "string \<Rightarrow> string \<times> string" where
  "os_path_split p =
     (let tl_part = rev (takeWhile (\<lambda>c. c \<noteq> CHR ''/'') (rev p));
          hd_part = rev (dropWhile (\<lambda>c. c \<noteq> CHR ''/'') (rev p))
      in (if hd_part \<noteq> [] \<and> (\<exists>c \<in> set hd_part. c \<noteq> CHR ''/'')
          then rev (dropWhile (\<lambda>c. c = CHR ''/'') (rev hd_part))
          else hd_part,
          tl_part))"

section \<open>Effects\<close>

text \<open>
  The calls that act on the world outside the object, in the order in which they are
  made: graph executions, checkpoint saves and restores, the screen lines of one
  evaluation (optimizer, epoch, step, moving accuracy, best moving accuracy, steps since
  improvement), directory creation and file writes.
\<close>

datatype optimizer = Adam | AMSGrad

datatype dataset = Devset | Testset

datatype effect =
    TrainBatch optimizer
  | DevSweep
  | SaveCheckpoint
  | ParseDataset dataset
  | Display optimizer nat int rat rat int
  | BuildDataset "string list"
  | BuildGraph
  | RestoreCheckpoint string
  | RunBatch "nat list"
  | CachePredictions "nat list"
  | MakeDirs string
  | WriteFile string

section \<open>The training loop\<close>

text \<open>
  The local variables of \<^verbatim>\<open>run\<close> inside \<^verbatim>\<open>BaseNetwork.train\<close>, the value of the
  graph variable \<^verbatim>\<open>global_step\<close>, the number of development sweeps made so far and the
  effects so far. The construction of the datasets, the graphs, the optimizers and the
  saver (lines 114 to 168) and the first screen (lines 179 to 210) are not part of the
  model.
\<close>

record train_state =
  current_optimizer :: optimizer
  current_step :: int
  global_step :: nat
  best_accuracy :: rat
  current_accuracy :: rat
  steps_since_best :: int
  n_evals :: nat
  effects :: "effect list"

text \<open>
  What the loop gets from outside: the number of batches of one pass of
  \<^verbatim>\<open>trainset.shuffled_batch_iterator()\<close>, the value that
  \<^verbatim>\<open>dev_outputs.get_current_accuracy()\<close> returns at the k-th evaluation, and the step
  during whose graph execution the user interrupts the run, if any. Accuracies are exact
  rationals here; the source computes with floating-point numbers.
\<close>

record train_env =
  n_batches :: nat
  dev_accuracy :: "nat \<Rightarrow> rat"
  interrupt :: "int option"

definition initial_state :: train_state where
  "initial_state =
     \<lparr>current_optimizer = Adam, current_step = 0, global_step = 0, best_accuracy = 0,
      current_accuracy = 0, steps_since_best = 0, n_evals = 0, effects = []\<rparr>"

text \<open>Lines 226 to 232: the development sweep and the moving average.\<close>

definition update_accuracy :: "train_env \<Rightarrow> train_state \<Rightarrow> train_state" where
  "update_accuracy env st =
     st\<lparr>current_accuracy := current_accuracy st * 0.75 + 0.25 * dev_accuracy env (n_evals st),
        n_evals := Suc (n_evals st),
        effects := effects st @ [DevSweep]\<rparr>"

text \<open>Lines 233 to 242: the improvement test.\<close>

definition check_improvement :: "config \<Rightarrow> train_state \<Rightarrow> train_state" where
  "check_improvement cfg st =
     (if current_accuracy st \<ge> best_accuracy st
      then st\<lparr>steps_since_best := 0,
              best_accuracy := current_accuracy st,
              effects := effects st
                @ (if save_model cfg then [SaveCheckpoint] else [])
                @ (if parse_datasets cfg then [ParseDataset Devset, ParseDataset Testset]
                   else [])\<rparr>
      else st\<lparr>steps_since_best := steps_since_best st + print_every cfg\<rparr>)"

text \<open>Lines 243 to 263: the screen.\<close>

definition display :: "train_state \<Rightarrow> train_state" where
  "display st =
     st\<lparr>effects := effects st
          @ [Display (current_optimizer st) (global_step st) (current_step st)
               (current_accuracy st) (best_accuracy st) (steps_since_best st)]\<rparr>"

definition eval_tick :: "config \<Rightarrow> train_env \<Rightarrow> train_state \<Rightarrow> train_state" where
  "eval_tick cfg env st = display (check_improvement cfg (update_accuracy env st))"

text \<open>
  Lines 220 to 263: one training batch. \<^verbatim>\<open>current_step % self.print_every\<close> raises
  when \<^verbatim>\<open>print_every\<close> is 0.
\<close>

definition train_step ::
  "config \<Rightarrow> train_env \<Rightarrow> train_state \<Rightarrow> exn \<times> train_state + train_state"
where
  "train_step cfg env st =
     (if interrupt env = Some (current_step st) then Inl (KeyboardInterrupt, st)
      else
        let st1 = st\<lparr>current_step := current_step st + 1,
                     effects := effects st @ [TrainBatch (current_optimizer st)]\<rparr>
        in if print_every cfg = 0 then Inl (ZeroDivisionError, st1)
           else if current_step st1 mod print_every cfg = 0
                then Inr (eval_tick cfg env st1)
                else Inr st1)"

text \<open>Line 219: the loop over the batches of one pass.\<close>

fun train_batches ::
  "config \<Rightarrow> train_env \<Rightarrow> nat \<Rightarrow> train_state \<Rightarrow> exn \<times> train_state + train_state"
where
  "train_batches cfg env 0 st = Inr st"
| "train_batches cfg env (Suc k) st =
     (case train_step cfg env st of
        Inl e \<Rightarrow> Inl e
      | Inr st' \<Rightarrow> train_batches cfg env k st')"

text \<open>
  Lines 216 to 218: the choice of the optimizer at the head of the outer loop. The
  comparison with \<^verbatim>\<open>.1*self.max_steps_without_improvement\<close> is made over exact
  rationals.
\<close>

definition switch_check :: "config \<Rightarrow> train_state \<Rightarrow> train_state" where
  "switch_check cfg st =
     (if of_int (steps_since_best st) > 0.1 * (of_int (max_steps_without_improvement cfg) :: rat)
         \<and> switch_optimizers cfg
      then st\<lparr>current_optimizer := AMSGrad\<rparr>
      else st)"

text \<open>Lines 216 to 264: the body of the outer loop, one pass over the training set.\<close>

definition train_epoch ::
  "config \<Rightarrow> train_env \<Rightarrow> train_state \<Rightarrow> exn \<times> train_state + train_state"
where
  "train_epoch cfg env st =
     (case train_batches cfg env (n_batches env) (switch_check cfg st) of
        Inl e \<Rightarrow> Inl e
      | Inr st' \<Rightarrow> Inr (st'\<lparr>global_step := Suc (global_step st')\<rparr>))"

text \<open>Line 215: the condition of the outer loop.\<close>

definition loop_cond :: "config \<Rightarrow> train_state \<Rightarrow> bool" where
  "loop_cond cfg st \<longleftrightarrow>
     current_step st < max_steps cfg
     \<and> steps_since_best st < max_steps_without_improvement cfg"

text \<open>
  Lines 215 to 264: the outer loop. With a training set of no batches the step counter
  never moves and the loop does not return: the result is then \<open>None\<close>.
\<close>

partial_function (option) train_loop ::
  "config \<Rightarrow> train_env \<Rightarrow> train_state \<Rightarrow> (exn \<times> train_state + train_state) option"
where
  "train_loop cfg env st =
     (if loop_cond cfg st
      then (case train_epoch cfg env st of
              Inl e \<Rightarrow> Some (Inl e)
            | Inr st' \<Rightarrow> train_loop cfg env st')
      else Some (Inr st))"

declare train_loop.simps [code]

text \<open>
  Lines 211 to 268: the \<^verbatim>\<open>try\<close> statement. The marker file is written after the loop,
  inside the \<^verbatim>\<open>try\<close>; the handler of \<^verbatim>\<open>KeyboardInterrupt\<close> does nothing; any other
  exception leaves the function.
\<close>

definition run ::
  "config \<Rightarrow> train_env \<Rightarrow> (exn \<times> train_state + train_state) option"
where
  "run cfg env =
     (case train_loop cfg env initial_state of
        None \<Rightarrow> None
      | Some (Inr st) \<Rightarrow>
          Some (Inr (st\<lparr>effects := effects st
                         @ [WriteFile (os_path_join (save_dir cfg) ''SUCCESS'')]\<rparr>))
      | Some (Inl (e, st)) \<Rightarrow>
          if e = KeyboardInterrupt then Some (Inr st) else Some (Inl (e, st)))"

text \<open>
  \<^verbatim>\<open>BaseNetwork.train\<close> from the start of the session: \<^verbatim>\<open>curses.wrapper(run)\<close>,
  then the transcript of the screen is written to \<^verbatim>\<open>scores.txt\<close>.
\<close>

definition train ::
  "config \<Rightarrow> train_env \<Rightarrow> (exn \<times> train_state + train_state) option"
where
  "train cfg env =
     (case run cfg env of
        None \<Rightarrow> None
      | Some (Inl x) \<Rightarrow> Some (Inl x)
      | Some (Inr st) \<Rightarrow>
          Some (Inr (st\<lparr>effects := effects st
                         @ [WriteFile (os_path_join (save_dir cfg) ''scores.txt'')]\<rparr>)))"

section \<open>Inference\<close>

text \<open>
  The effects of an inference call so far, and the paths for which
  \<^verbatim>\<open>os.path.exists\<close> holds. \<^verbatim>\<open>os.makedirs\<close> makes its argument exist; opening the
  output file is taken to succeed.
\<close>

record parse_state =
  log :: "effect list"
  existing :: "string list"

text \<open>
  What inference gets from outside: the batches of row indices that
  \<^verbatim>\<open>dataset.file_batch_iterator\<close> yields for a file index, the result of
  \<^verbatim>\<open>tf.train.latest_checkpoint(self.save_dir)\<close> (restoring from \<^verbatim>\<open>None\<close> raises), and
  the paths that exist at the start. \<^verbatim>\<open>dataset.filenames\<close> is the list of input files.
\<close>

record parse_env =
  file_batch_iterator :: "nat \<Rightarrow> nat list list"
  latest_checkpoint :: "string option"
  initial_paths :: "string list"

definition emit :: "effect list \<Rightarrow> parse_state \<Rightarrow> parse_state" where
  "emit es ps = ps\<lparr>log := log ps @ es\<rparr>"

text \<open>\<^verbatim>\<open>if not os.path.exists(d): os.makedirs(d)\<close>\<close>

definition ensure_dir :: "string \<Rightarrow> parse_state \<Rightarrow> parse_state" where
  "ensure_dir d ps =
     (if d \<in> set (existing ps) then ps
      else ps\<lparr>log := log ps @ [MakeDirs d], existing := d # existing ps\<rparr>)"

text \<open>
  Lines 295 to 300 and 326 to 331: one batch is run through the graph and its predictions
  are cached under its row indices.
\<close>

definition predict_batch :: "nat list \<Rightarrow> parse_state \<Rightarrow> parse_state" where
  "predict_batch indices ps = emit [RunBatch indices, CachePredictions indices] ps"

text \<open>
  Lines 295 to 312: the body of the loop of \<^verbatim>\<open>parse_file\<close>. The lines that compute the
  output path and write the file are inside the loop, and the loop assigns to
  \<^verbatim>\<open>input_filename\<close>, \<^verbatim>\<open>output_dir\<close> and \<^verbatim>\<open>output_filename\<close>, which are the state
  here together with the effects. \<^verbatim>\<open>os.path.join(output_dir, None)\<close> raises.
\<close>

definition parse_file_batch ::
  "config \<Rightarrow> nat list \<Rightarrow> string \<times> string option \<times> string option \<times> parse_state
   \<Rightarrow> exn \<times> parse_state + string \<times> string option \<times> string option \<times> parse_state"
where
  "parse_file_batch cfg indices s =
     (case s of (input_filename, output_dir, output_filename, ps) \<Rightarrow>
        let ps1 = predict_batch indices ps;
            input_dir = fst (os_path_split input_filename);
            input_filename' = snd (os_path_split input_filename);
            output_dir' =
              (case output_dir of
                 None \<Rightarrow> os_path_join (os_path_join (save_dir cfg) ''parsed'') input_dir
               | Some d \<Rightarrow> d);
            output_filename' =
              (case output_dir of
                 None \<Rightarrow> output_filename
               | Some d \<Rightarrow>
                   (case output_filename of
                      None \<Rightarrow> Some input_filename'
                    | Some f \<Rightarrow> Some f));
            ps2 = ensure_dir output_dir' ps1
        in (case output_filename' of
              None \<Rightarrow> Inl (TypeError, ps2)
            | Some f \<Rightarrow>
                Inr (input_filename', Some output_dir', Some (os_path_join output_dir' f),
                     emit [WriteFile (os_path_join output_dir' f)] ps2)))"

fun parse_file_loop ::
  "config \<Rightarrow> nat list list \<Rightarrow> string \<times> string option \<times> string option \<times> parse_state
   \<Rightarrow> exn \<times> parse_state + string \<times> string option \<times> string option \<times> parse_state"
where
  "parse_file_loop cfg [] s = Inr s"
| "parse_file_loop cfg (b # bs) s =
     (case parse_file_batch cfg b s of
        Inl e \<Rightarrow> Inl e
      | Inr s' \<Rightarrow> parse_file_loop cfg bs s')"

text \<open>\<^verbatim>\<open>BaseNetwork.parse_file\<close>: \<^verbatim>\<open>dataset.filenames[0]\<close> raises on an empty list.\<close>

definition parse_file ::
  "config \<Rightarrow> parse_env \<Rightarrow> string list \<Rightarrow> string option \<Rightarrow> string option \<Rightarrow> parse_state
   \<Rightarrow> exn \<times> parse_state + parse_state"
where
  "parse_file cfg env filenames output_dir output_filename ps =
     (case filenames of
        [] \<Rightarrow> Inl (IndexError, ps)
      | input_filename # rest \<Rightarrow>
          (case parse_file_loop cfg (file_batch_iterator env 0)
                  (input_filename, output_dir, output_filename, ps) of
             Inl e \<Rightarrow> Inl e
           | Inr (f, d, out, ps') \<Rightarrow> Inr ps'))"

text \<open>Lines 325 to 331: the inner loop of \<^verbatim>\<open>parse_files\<close>.\<close>

fun predict_batches :: "nat list list \<Rightarrow> parse_state \<Rightarrow> parse_state" where
  "predict_batches [] ps = ps"
| "predict_batches (b # bs) ps = predict_batches bs (predict_batch b ps)"

text \<open>
  Lines 325 to 340: the body of the outer loop of \<^verbatim>\<open>parse_files\<close>. The local variable
  \<^verbatim>\<open>file_output_dir\<close> is \<open>None\<close> while it is unbound; line 335 assigns it only when
  \<^verbatim>\<open>output_dir\<close> is \<^verbatim>\<open>None\<close>, and line 336 reads it.
\<close>

definition parse_files_file ::
  "config \<Rightarrow> parse_env \<Rightarrow> string option \<Rightarrow> nat \<Rightarrow> string \<Rightarrow> string option \<times> parse_state
   \<Rightarrow> exn \<times> parse_state + string option \<times> parse_state"
where
  "parse_files_file cfg env output_dir file_index input_filename s =
     (case s of (file_output_dir, ps) \<Rightarrow>
        let ps1 = predict_batches (file_batch_iterator env file_index) ps;
            input_dir = fst (os_path_split input_filename);
            input_filename' = snd (os_path_split input_filename);
            file_output_dir' =
              (case output_dir of
                 None \<Rightarrow> Some (os_path_join (os_path_join (save_dir cfg) ''parsed'') input_dir)
               | Some d \<Rightarrow> file_output_dir)
        in (case file_output_dir' of
              None \<Rightarrow> Inl (UnboundLocalError ''file_output_dir'', ps1)
            | Some d \<Rightarrow>
                Inr (Some d,
                     emit [WriteFile (os_path_join d input_filename')] (ensure_dir d ps1))))"

text \<open>Line 324: the loop over \<^verbatim>\<open>enumerate(filenames)\<close>.\<close>

fun parse_files_loop ::
  "config \<Rightarrow> parse_env \<Rightarrow> string option \<Rightarrow> (nat \<times> string) list \<Rightarrow> string option \<times> parse_state
   \<Rightarrow> exn \<times> parse_state + string option \<times> parse_state"
where
  "parse_files_loop cfg env output_dir [] s = Inr s"
| "parse_files_loop cfg env output_dir ((i, f) # fs) s =
     (case parse_files_file cfg env output_dir i f s of
        Inl e \<Rightarrow> Inl e
      | Inr s' \<Rightarrow> parse_files_loop cfg env output_dir fs s')"

text \<open>
  \<^verbatim>\<open>BaseNetwork.parse_files\<close>. The last line formats \<^verbatim>\<open>file_index\<close>, which is unbound
  when the list of files is empty.
\<close>

definition parse_files ::
  "config \<Rightarrow> parse_env \<Rightarrow> string list \<Rightarrow> string option \<Rightarrow> parse_state
   \<Rightarrow> exn \<times> parse_state + parse_state"
where
  "parse_files cfg env filenames output_dir ps =
     (case parse_files_loop cfg env output_dir (enumerate 0 filenames) (None, ps) of
        Inl e \<Rightarrow> Inl e
      | Inr (d, ps') \<Rightarrow>
          if filenames = [] then Inl (UnboundLocalError ''file_index'', ps')
          else Inr ps')"

text \<open>\<^verbatim>\<open>if output_filename:\<close> holds for a string that is given and not empty.\<close>

definition truthy :: "string option \<Rightarrow> bool" where
  "truthy x \<longleftrightarrow> (case x of None \<Rightarrow> False | Some s \<Rightarrow> s \<noteq> [])"

text \<open>
  \<^verbatim>\<open>BaseNetwork.parse\<close>: the dataset is constructed from the input files, then the
  assertion on the output file name is checked, then the graph is built, the checkpoint
  restored and the files parsed.
\<close>

definition parse ::
  "config \<Rightarrow> parse_env \<Rightarrow> string list \<Rightarrow> string option \<Rightarrow> string option
   \<Rightarrow> exn \<times> parse_state + parse_state"
where
  "parse cfg env conllu_files output_dir output_filename =
     (let ps0 = \<lparr>log = [BuildDataset conllu_files], existing = initial_paths env\<rparr>
      in if truthy output_filename \<and> length conllu_files \<noteq> 1
         then Inl (AssertionError ''output_filename can only be specified for one input file'',
                   ps0)
         else
           case latest_checkpoint env of
             None \<Rightarrow> Inl (ValueError, emit [BuildGraph] ps0)
           | Some ckpt \<Rightarrow>
               if length conllu_files = 1 \<or> output_filename \<noteq> None
               then parse_file cfg env conllu_files output_dir output_filename
                      (emit [BuildGraph, RestoreCheckpoint ckpt] ps0)
               else parse_files cfg env conllu_files output_dir
                      (emit [BuildGraph, RestoreCheckpoint ckpt] ps0))"

section \<open>Example inputs\<close>

text \<open>Concrete configurations and environments, at which the theorems below are applied.\<close>

definition cfg0 :: config where
  "cfg0 =
     \<lparr>model_classname = ''ParserNetwork'', save_dir = ''saves/run'',
      input_network_classes = [''TaggerNetwork''],
      input_vocab_classes = [''FormVocab''],
      output_vocab_classes = [''DeprelVocab''],
      throughput_vocab_classes = [''UPOSVocab''],
      print_every = 5, max_steps = 100, max_steps_without_improvement = 20,
      switch_optimizers = True, save_model = True, parse_datasets = False\<rparr>"

definition penv0 :: parse_env where
  "penv0 =
     \<lparr>file_batch_iterator = (\<lambda>i. if i = 0 then [[0, 1]] else [[2, 3], [4]]),
      latest_checkpoint = Some ''saves/run/ckpt-3'',
      initial_paths = [''out'']\<rparr>"

definition renv0 :: registry_env where
  "renv0 =
     \<lparr>vocab_module = [''FormVocab'', ''UPOSVocab'', ''DeprelVocab'', ''IDIndexVocab''],
      persisted = [''FormVocab'']\<rparr>"

definition id7 :: vocab where
  "id7 = \<lparr>classname = ''IDIndexVocab'', ident = 7, population = Unpopulated\<rparr>"

definition form3 :: vocab where
  "form3 = \<lparr>classname = ''FormVocab'', ident = 3, population = Counted\<rparr>"


definition deprel10 :: vocab where
  "deprel10 = \<lparr>classname = ''DeprelVocab'', ident = 10, population = Counted\<rparr>"

definition tagger0 :: input_network where
  "tagger0 = \<lparr>network_classname = ''TaggerNetwork'', vocabs = [id7, form3]\<rparr>"


definition network0 :: base_network where
  "network0 =
     \<lparr>id_vocab = id7, input_vocabs = {form3}, output_vocabs = {deprel10},
      throughput_vocabs = {deprel10}, all_vocabs = {id7, form3, deprel10},
      next_ident = 11\<rparr>"

text \<open>
  Training environments: ten batches in a pass and development accuracies that alternate
  between 1/2 and 2/5; the same with an interrupt during the fourth batch; four batches
  in a pass with a development accuracy of 1/2 at the first and the fourth evaluation and
  0 at the others.
\<close>

definition tenv0 :: train_env where
  "tenv0 = \<lparr>n_batches = 10, dev_accuracy = (\<lambda>k. if even k then 1 / 2 else 2 / 5),
            interrupt = None\<rparr>"


definition tenv_dip :: train_env where
  "tenv_dip = \<lparr>n_batches = 4, dev_accuracy = (\<lambda>k. if k = 0 \<or> k = 3 then 1 / 2 else 0),
               interrupt = None\<rparr>"

text \<open>
  Configurations: \<open>cfg0\<close> with a budget of 10 steps; \<open>cfg0\<close> without checkpoints; an
  evaluation at every step with a patience of 10 steps and a budget of 8 steps.
\<close>

definition cfg_short :: config where
  "cfg_short = cfg0\<lparr>max_steps := 10\<rparr>"

definition cfg_nosave :: config where
  "cfg_nosave = cfg0\<lparr>save_model := False\<rparr>"

definition cfg_dip :: config where
  "cfg_dip = cfg0\<lparr>print_every := 1, max_steps := 8, max_steps_without_improvement := 10\<rparr>"

text \<open>The state in which \<open>train cfg_short tenv0\<close> ends.\<close>

definition run_short :: train_state where
  "run_short =
     \<lparr>current_optimizer = Adam, current_step = 10, global_step = 1,
      best_accuracy = 31 / 160, current_accuracy = 31 / 160, steps_since_best = 0,
      n_evals = 2,
      effects =
        [TrainBatch Adam, TrainBatch Adam, TrainBatch Adam, TrainBatch Adam, TrainBatch Adam,
         DevSweep, SaveCheckpoint, Display Adam 0 5 (1 / 8) (1 / 8) 0,
         TrainBatch Adam, TrainBatch Adam, TrainBatch Adam, TrainBatch Adam, TrainBatch Adam,
         DevSweep, SaveCheckpoint, Display Adam 0 10 (31 / 160) (31 / 160) 0,
         WriteFile ''saves/run/SUCCESS'', WriteFile ''saves/run/scores.txt'']\<rparr>"

definition cfg_noswitch :: config where
  "cfg_noswitch = cfg_short\<lparr>switch_optimizers := False\<rparr>"



definition before_tick :: train_state where
  "before_tick = initial_state\<lparr>current_step := 4\<rparr>"

definition stalled :: train_state where
  "stalled = initial_state\<lparr>steps_since_best := 5\<rparr>"


section \<open>Notions used in the statements\<close>




text \<open>The state in which a run of the training loop ended, with or without an exception.\<close>

definition final_state :: "exn \<times> train_state + train_state \<Rightarrow> train_state" where
  "final_state r = (case r of Inl (e, st) \<Rightarrow> st | Inr st \<Rightarrow> st)"

text \<open>
  Projections of the effects: the optimizer of each training batch, the three numbers
  that each evaluation puts on the screen, and the paths of the files written.
\<close>

fun train_optimizer :: "effect \<Rightarrow> optimizer list" where
  "train_optimizer (TrainBatch opt) = [opt]"
| "train_optimizer _ = []"

definition optimizers_used :: "effect list \<Rightarrow> optimizer list" where
  "optimizers_used es = concat (map train_optimizer es)"

fun shown_accuracy :: "effect \<Rightarrow> rat list" where
  "shown_accuracy (Display opt ep stp acc best ssb) = [acc]"
| "shown_accuracy _ = []"

definition shown_accuracies :: "effect list \<Rightarrow> rat list" where
  "shown_accuracies es = concat (map shown_accuracy es)"

fun shown_best :: "effect \<Rightarrow> rat list" where
  "shown_best (Display opt ep stp acc best ssb) = [best]"
| "shown_best _ = []"

definition shown_bests :: "effect list \<Rightarrow> rat list" where
  "shown_bests es = concat (map shown_best es)"

fun shown_since :: "effect \<Rightarrow> int list" where
  "shown_since (Display opt ep stp acc best ssb) = [ssb]"
| "shown_since _ = []"

definition shown_steps_since_best :: "effect list \<Rightarrow> int list" where
  "shown_steps_since_best es = concat (map shown_since es)"

fun written_path :: "effect \<Rightarrow> string list" where
  "written_path (WriteFile p) = [p]"
| "written_path _ = []"

definition files_written :: "effect list \<Rightarrow> string list" where
  "files_written es = concat (map written_path es)"

text \<open>
  The sequences of the specification: \<open>s[0] = 0.25 * a[0]\<close> and
  \<open>s[t] = 0.75 * s[t-1] + 0.25 * a[t]\<close> for the smoothed accuracy at evaluation \<open>t\<close>,
  and the best smoothed accuracy before evaluation \<open>t\<close>, which starts at 0 and is replaced
  by a smoothed accuracy that is at least as large.
\<close>

fun spec_smoothed :: "(nat \<Rightarrow> rat) \<Rightarrow> nat \<Rightarrow> rat" where
  "spec_smoothed a 0 = 0.25 * a 0"
| "spec_smoothed a (Suc t) = 0.75 * spec_smoothed a t + 0.25 * a (Suc t)"

fun spec_best :: "(nat \<Rightarrow> rat) \<Rightarrow> nat \<Rightarrow> rat" where
  "spec_best a 0 = 0"
| "spec_best a (Suc t) =
     (if spec_smoothed a t \<ge> spec_best a t then spec_smoothed a t else spec_best a t)"

text \<open>
  What holds of the state of the training loop after \<open>n_evals\<close> evaluations: the screen
  has shown the smoothed accuracies and the best smoothed accuracies of the
  specification, and the two variables hold the latest of them.
\<close>

definition smoothing_inv :: "train_env \<Rightarrow> train_state \<Rightarrow> bool" where
  "smoothing_inv env st \<longleftrightarrow>
     shown_accuracies (effects st) = map (spec_smoothed (dev_accuracy env)) [0..<n_evals st]
     \<and> shown_bests (effects st)
         = map (\<lambda>t. spec_best (dev_accuracy env) (Suc t)) [0..<n_evals st]
     \<and> current_accuracy st
         = (case n_evals st of 0 \<Rightarrow> 0 | Suc t \<Rightarrow> spec_smoothed (dev_accuracy env) t)
     \<and> best_accuracy st = spec_best (dev_accuracy env) (n_evals st)"

text \<open>
  The batches so far were trained with Adam first and AMSGrad afterwards, the current
  optimizer is the one of the last phase, and it is Adam when switching is disabled.
\<close>

definition optimizer_inv :: "config \<Rightarrow> train_state \<Rightarrow> bool" where
  "optimizer_inv cfg st \<longleftrightarrow>
     (\<exists>i j. optimizers_used (effects st) = replicate i Adam @ replicate j AMSGrad
            \<and> (current_optimizer st = Adam \<longrightarrow> j = 0))
     \<and> (\<not> switch_optimizers cfg \<longrightarrow> current_optimizer st = Adam)"

text \<open>
  Within one pass over the training set: the optimizer is \<open>opt\<close>, and the batches trained
  since the pass began, after those of \<open>base\<close>, were all trained with it.
\<close>

definition pass_inv :: "optimizer \<Rightarrow> optimizer list \<Rightarrow> train_state \<Rightarrow> bool" where
  "pass_inv opt base st \<longleftrightarrow>
     current_optimizer st = opt
     \<and> (\<exists>k. optimizers_used (effects st) = base @ replicate k opt)"

section \<open>The sub-models passed to the constructor\<close>

text \<open>
  C7. When the class names of the sub-models passed in are not the configured
  \<^verbatim>\<open>input_network_classes\<close> as a set, construction fails at the first assertion
  (the ConfigurationError of the specification), whatever the vocabularies of the
  sub-models and the vocabulary classes of the configuration are: no vocabulary is looked
  up or created before.
\<close>

theorem init_rejects_network_mismatch:
  "set (map network_classname input_networks) \<noteq> set (input_network_classes cfg) \<Longrightarrow>
   init env cfg input_networks n0 =
     Inl (AssertionError (''Not all input networks were passed in to '' @ model_classname cfg))"
  by (simp add: init_def)

theorem init_rejects_network_mismatch_witness:
  "set (map network_classname []) \<noteq> set (input_network_classes cfg0) \<and>
   init \<lparr>vocab_module = [], persisted = []\<rparr> cfg0 [] 0 =
     Inl (AssertionError ''Not all input networks were passed in to ParserNetwork'')"
  using init_rejects_network_mismatch [of "[]" cfg0 "\<lparr>vocab_module = [], persisted = []\<rparr>" 0]
  by (simp add: cfg0_def)

section \<open>The vocabulary dictionary\<close>

















text \<open>
  C9. The loop that fills the throughput vocabularies iterates the output vocabulary
  classes. With \<^verbatim>\<open>DeprelVocab\<close> configured as the output class and
  \<^verbatim>\<open>UPOSVocab\<close> as the throughput class, the throughput set of the constructed model
  holds the \<^verbatim>\<open>DeprelVocab\<close> object, and no \<^verbatim>\<open>UPOSVocab\<close> object exists in the model.
\<close>

theorem init_throughput_from_output_classes:
  "throughput_vocab_classes cfg0 = [''UPOSVocab'']
   \<and> output_vocab_classes cfg0 = [''DeprelVocab'']
   \<and> init renv0 cfg0 [tagger0] 10 = Inr network0
   \<and> classname ` throughput_vocabs network0 = {''DeprelVocab''}
   \<and> classname ` all_vocabs network0 = {''IDIndexVocab'', ''FormVocab'', ''DeprelVocab''}"
  by (simp add: init_def renv0_def cfg0_def tagger0_def id7_def form3_def deprel10_def
      network0_def resolve_id_vocab_def new_vocab_def)

section \<open>Rules for the training loop\<close>

lemma train_batches_rule:
  assumes step: "\<And>s s'. I s \<Longrightarrow> train_step cfg env s = Inr s' \<Longrightarrow> I s'"
    and err: "\<And>s e. I s \<Longrightarrow> train_step cfg env s = Inl e \<Longrightarrow> E e"
  shows "I st \<Longrightarrow> (case train_batches cfg env k st of Inr st' \<Rightarrow> I st' | Inl e \<Rightarrow> E e)"
proof (induction k arbitrary: st)
  case 0
  then show ?case by simp
next
  case (Suc k)
  show ?case
  proof (cases "train_step cfg env st")
    case (Inl e)
    with err [OF Suc.prems] show ?thesis by simp
  next
    case (Inr s')
    from step [OF Suc.prems Inr] have "I s'" .
    from Suc.IH [OF this] Inr show ?thesis by simp
  qed
qed

lemma train_loop_rule:
  assumes run: "train_loop cfg env st = Some r"
    and inv: "I st"
    and step: "\<And>s s'. I s \<Longrightarrow> loop_cond cfg s \<Longrightarrow> train_epoch cfg env s = Inr s' \<Longrightarrow> I s'"
    and exitn: "\<And>s. I s \<Longrightarrow> \<not> loop_cond cfg s \<Longrightarrow> Q (Inr s)"
    and exite: "\<And>s e. I s \<Longrightarrow> loop_cond cfg s \<Longrightarrow> train_epoch cfg env s = Inl e \<Longrightarrow> Q (Inl e)"
  shows "Q r"
proof -
  have "cfg = cfg \<longrightarrow> env = env \<longrightarrow> I st \<longrightarrow> Q r"
  proof (rule train_loop.raw_induct
      [where P = "\<lambda>c e s y. c = cfg \<longrightarrow> e = env \<longrightarrow> I s \<longrightarrow> Q y", OF _ run])
    fix f c e s y
    assume ih: "\<And>c e s y. f c e s = Some y \<Longrightarrow> c = cfg \<longrightarrow> e = env \<longrightarrow> I s \<longrightarrow> Q y"
      and eq: "(if loop_cond c s
                then case train_epoch c e s of Inl x \<Rightarrow> Some (Inl x) | Inr s' \<Rightarrow> f c e s'
                else Some (Inr s)) = Some y"
    show "c = cfg \<longrightarrow> e = env \<longrightarrow> I s \<longrightarrow> Q y"
    proof (intro impI)
      assume c: "c = cfg" and e: "e = env" and i: "I s"
      show "Q y"
      proof (cases "loop_cond cfg s")
        case False
        with eq c have "y = Inr s" by simp
        with exitn [OF i False] show ?thesis by simp
      next
        case True
        show ?thesis
        proof (cases "train_epoch cfg env s")
          case (Inl x)
          with eq True c e have "y = Inl x" by simp
          with exite [OF i True Inl] show ?thesis by simp
        next
          case (Inr s')
          with eq True c e have "f cfg env s' = Some y" by simp
          from ih [OF this] step [OF i True Inr] show ?thesis by simp
        qed
      qed
    qed
  qed
  with run inv show ?thesis by blast
qed


lemma train_epoch_rule:
  assumes i: "I st"
    and sw: "\<And>s. I s \<Longrightarrow> J (switch_check cfg s)"
    and step: "\<And>s s'. J s \<Longrightarrow> train_step cfg env s = Inr s' \<Longrightarrow> J s'"
    and err: "\<And>s e. J s \<Longrightarrow> train_step cfg env s = Inl e \<Longrightarrow> E e"
    and fin: "\<And>s. J s \<Longrightarrow> I (s\<lparr>global_step := Suc (global_step s)\<rparr>)"
  shows "case train_epoch cfg env st of Inr st' \<Rightarrow> I st' | Inl e \<Rightarrow> E e"
proof -
  have "case train_batches cfg env (n_batches env) (switch_check cfg st) of
          Inr st' \<Rightarrow> J st' | Inl e \<Rightarrow> E e"
    using step err sw [OF i] by (rule train_batches_rule)
  then show ?thesis
    by (auto simp: train_epoch_def fin split: sum.splits)
qed

lemma train_loop_inv:
  assumes run: "train_loop cfg env st = Some r"
    and i: "I st"
    and sw: "\<And>s. I s \<Longrightarrow> J (switch_check cfg s)"
    and step: "\<And>s s'. J s \<Longrightarrow> train_step cfg env s = Inr s' \<Longrightarrow> J s'"
    and err: "\<And>s e. J s \<Longrightarrow> train_step cfg env s = Inl e \<Longrightarrow> E e"
    and fin: "\<And>s. J s \<Longrightarrow> I (s\<lparr>global_step := Suc (global_step s)\<rparr>)"
  shows "case r of Inr s \<Rightarrow> I s \<and> \<not> loop_cond cfg s | Inl e \<Rightarrow> E e"
proof (rule train_loop_rule [OF run, where I = I])
  show "I st" by (rule i)
next
  fix s s' assume "I s" and e: "train_epoch cfg env s = Inr s'"
  from train_epoch_rule [of I s J cfg env E, OF \<open>I s\<close> sw step err fin] e
  show "I s'" by simp
next
  fix s assume "I s" "\<not> loop_cond cfg s"
  then show "case Inr s of Inr s \<Rightarrow> I s \<and> \<not> loop_cond cfg s | Inl e \<Rightarrow> E e" by simp
next
  fix s e assume "I s" and e: "train_epoch cfg env s = Inl e"
  from train_epoch_rule [of I s J cfg env E, OF \<open>I s\<close> sw step err fin] e
  show "case Inl e of Inr s \<Rightarrow> I s \<and> \<not> loop_cond cfg s | Inl e \<Rightarrow> E e" by simp
qed

subsection \<open>Termination\<close>





section \<open>Evaluations, smoothing and optimizers\<close>

lemma projections_append [simp]:
  "optimizers_used (xs @ ys) = optimizers_used xs @ optimizers_used ys"
  "shown_accuracies (xs @ ys) = shown_accuracies xs @ shown_accuracies ys"
  "shown_bests (xs @ ys) = shown_bests xs @ shown_bests ys"
  "shown_steps_since_best (xs @ ys) = shown_steps_since_best xs @ shown_steps_since_best ys"
  "files_written (xs @ ys) = files_written xs @ files_written ys"
  by (simp_all add: optimizers_used_def shown_accuracies_def shown_bests_def
      shown_steps_since_best_def files_written_def)

lemma projections_simps [simp]:
  "optimizers_used [] = []" "optimizers_used (e # es) = train_optimizer e @ optimizers_used es"
  "shown_accuracies [] = []" "shown_accuracies (e # es) = shown_accuracy e @ shown_accuracies es"
  "shown_bests [] = []" "shown_bests (e # es) = shown_best e @ shown_bests es"
  "shown_steps_since_best [] = []"
  "shown_steps_since_best (e # es) = shown_since e @ shown_steps_since_best es"
  "files_written [] = []" "files_written (e # es) = written_path e @ files_written es"
  by (simp_all add: optimizers_used_def shown_accuracies_def shown_bests_def
      shown_steps_since_best_def files_written_def)

lemma eval_tick_effects:
  "effects (eval_tick cfg env st) =
     effects st @ [DevSweep]
     @ (if current_accuracy st * 0.75 + 0.25 * dev_accuracy env (n_evals st) \<ge> best_accuracy st
        then (if save_model cfg then [SaveCheckpoint] else [])
             @ (if parse_datasets cfg then [ParseDataset Devset, ParseDataset Testset] else [])
        else [])
     @ [Display (current_optimizer st) (global_step st) (current_step st)
          (current_accuracy (eval_tick cfg env st)) (best_accuracy (eval_tick cfg env st))
          (steps_since_best (eval_tick cfg env st))]"
  by (simp add: eval_tick_def display_def check_improvement_def update_accuracy_def)

lemma eval_tick_fields:
  "current_accuracy (eval_tick cfg env st) =
     current_accuracy st * 0.75 + 0.25 * dev_accuracy env (n_evals st)"
  "best_accuracy (eval_tick cfg env st) =
     (if current_accuracy st * 0.75 + 0.25 * dev_accuracy env (n_evals st) \<ge> best_accuracy st
      then current_accuracy st * 0.75 + 0.25 * dev_accuracy env (n_evals st)
      else best_accuracy st)"
  "steps_since_best (eval_tick cfg env st) =
     (if current_accuracy st * 0.75 + 0.25 * dev_accuracy env (n_evals st) \<ge> best_accuracy st
      then 0 else steps_since_best st + print_every cfg)"
  "n_evals (eval_tick cfg env st) = Suc (n_evals st)"
  "current_optimizer (eval_tick cfg env st) = current_optimizer st"
  "current_step (eval_tick cfg env st) = current_step st"
  "global_step (eval_tick cfg env st) = global_step st"
  by (simp_all add: eval_tick_def display_def check_improvement_def update_accuracy_def)

text \<open>
  C1 (as amended). A training batch that is not interrupted, with \<^verbatim>\<open>print_every\<close> not 0,
  advances the step counter by one. When the new step number is a multiple of
  \<^verbatim>\<open>print_every\<close>, the moving average is updated and compared with the best value so
  far: when it is at least the best value, the steps since the best value are reset to 0,
  the best value becomes the moving average, and one checkpoint is saved when
  \<^verbatim>\<open>save_model\<close> is set and none when it is not; otherwise the steps since the best
  value grow by \<^verbatim>\<open>print_every\<close>, the best value stays and no checkpoint is saved. At
  any other step none of these changes.
\<close>

theorem train_step_evaluation_tick:
  assumes "print_every cfg \<noteq> 0" and "interrupt env \<noteq> Some (current_step st)"
  shows "\<exists>st'. train_step cfg env st = Inr st' \<and> current_step st' = current_step st + 1
     \<and> (if current_step st' mod print_every cfg = 0
         then current_accuracy st'
                = current_accuracy st * 0.75 + 0.25 * dev_accuracy env (n_evals st)
            \<and> (if current_accuracy st' \<ge> best_accuracy st
                then count_list (effects st') SaveCheckpoint
                       = count_list (effects st) SaveCheckpoint + (if save_model cfg then 1 else 0)
                   \<and> steps_since_best st' = 0
                   \<and> best_accuracy st' = current_accuracy st'
                else count_list (effects st') SaveCheckpoint
                       = count_list (effects st) SaveCheckpoint
                   \<and> steps_since_best st' = steps_since_best st + print_every cfg
                   \<and> best_accuracy st' = best_accuracy st)
         else count_list (effects st') SaveCheckpoint = count_list (effects st) SaveCheckpoint
            \<and> steps_since_best st' = steps_since_best st
            \<and> best_accuracy st' = best_accuracy st
            \<and> current_accuracy st' = current_accuracy st)"
  using assms
  by (simp add: train_step_def Let_def eval_tick_def display_def check_improvement_def
      update_accuracy_def)

lemma eval_tick_smoothing:
  assumes "smoothing_inv env st"
  shows "smoothing_inv env (eval_tick cfg env st)"
proof (cases "n_evals st")
  case 0
  with assms show ?thesis
    by (simp add: smoothing_inv_def eval_tick_effects eval_tick_fields)
next
  case (Suc t)
  with assms show ?thesis
    by (simp add: smoothing_inv_def eval_tick_effects eval_tick_fields mult.commute)
qed

lemma train_step_smoothing:
  "smoothing_inv env st \<Longrightarrow> smoothing_inv env (final_state (train_step cfg env st))"
  using eval_tick_smoothing [of env "st\<lparr>current_step := current_step st + 1,
                     effects := effects st @ [TrainBatch (current_optimizer st)]\<rparr>" cfg]
  by (auto simp: train_step_def Let_def final_state_def smoothing_inv_def)


lemma train_loop_smoothing:
  assumes run: "train_loop cfg env st = Some r" and i: "smoothing_inv env st"
  shows "smoothing_inv env (final_state r)"
proof -
  have "case r of Inr s \<Rightarrow> smoothing_inv env s \<and> \<not> loop_cond cfg s
        | Inl e \<Rightarrow> smoothing_inv env (snd e)"
  proof (rule train_loop_inv [OF run, where I = "smoothing_inv env" and J = "smoothing_inv env"])
    show "smoothing_inv env st" by (rule i)
  next
    fix s assume "smoothing_inv env s"
    then show "smoothing_inv env (switch_check cfg s)"
      by (simp add: switch_check_def smoothing_inv_def)
  next
    fix s s' assume "smoothing_inv env s" "train_step cfg env s = Inr s'"
    with train_step_smoothing [of env s cfg] show "smoothing_inv env s'"
      by (simp add: final_state_def)
  next
    fix s e assume "smoothing_inv env s" "train_step cfg env s = Inl e"
    with train_step_smoothing [of env s cfg] show "smoothing_inv env (snd e)"
      by (cases e) (simp add: final_state_def)
  next
    fix s assume "smoothing_inv env s"
    then show "smoothing_inv env (s\<lparr>global_step := Suc (global_step s)\<rparr>)"
      by (simp add: smoothing_inv_def)
  qed
  then show ?thesis
    by (auto simp: final_state_def split: sum.splits)
qed

lemma initial_smoothing: "smoothing_inv env initial_state"
  by (simp add: smoothing_inv_def initial_state_def)

text \<open>What \<^verbatim>\<open>train\<close> adds to the result of the loop.\<close>

lemma train_cases:
  assumes "train cfg env = Some r"
  obtains
    (normal) st where "train_loop cfg env initial_state = Some (Inr st)"
      "r = Inr (st\<lparr>effects := effects st
                    @ [WriteFile (os_path_join (save_dir cfg) ''SUCCESS''),
                       WriteFile (os_path_join (save_dir cfg) ''scores.txt'')]\<rparr>)"
  | (interrupted) st where "train_loop cfg env initial_state = Some (Inl (KeyboardInterrupt, st))"
      "r = Inr (st\<lparr>effects := effects st
                    @ [WriteFile (os_path_join (save_dir cfg) ''scores.txt'')]\<rparr>)"
  | (failed) e st where "train_loop cfg env initial_state = Some (Inl (e, st))"
      "e \<noteq> KeyboardInterrupt" "r = Inl (e, st)"
  using assms
  by (auto simp: train_def run_def split: option.splits sum.splits if_splits)

text \<open>
  C3. In every run of \<^verbatim>\<open>train\<close> that returns, the moving accuracies put on the screen
  at the successive evaluations are \<open>s[0], s[1], \<dots>\<close> with \<open>s[0] = 0.25 * a[0]\<close> and
  \<open>s[t] = 0.75 * s[t-1] + 0.25 * a[t]\<close>, where \<open>a[t]\<close> is the development accuracy of
  evaluation \<open>t\<close>; and the best values shown are those obtained by comparing each
  \<open>s[t]\<close>, not \<open>a[t]\<close>, with the best value before it, starting from 0.
\<close>

theorem smoothed_accuracy_recurrence:
  assumes "train cfg env = Some r"
  shows "shown_accuracies (effects (final_state r))
           = map (spec_smoothed (dev_accuracy env)) [0..<n_evals (final_state r)]
     \<and> shown_bests (effects (final_state r))
           = map (\<lambda>t. spec_best (dev_accuracy env) (Suc t)) [0..<n_evals (final_state r)]"
  using assms
proof (cases rule: train_cases)
  case (normal st)
  from train_loop_smoothing [OF normal(1) initial_smoothing] normal(2)
  show ?thesis by (simp add: final_state_def smoothing_inv_def)
next
  case (interrupted st)
  from train_loop_smoothing [OF interrupted(1) initial_smoothing] interrupted(2)
  show ?thesis by (simp add: final_state_def smoothing_inv_def)
next
  case (failed e st)
  from train_loop_smoothing [OF failed(1) initial_smoothing] failed(3)
  show ?thesis by (simp add: final_state_def smoothing_inv_def)
qed

subsection \<open>Optimizers\<close>

lemma switch_check_fields:
  "current_step (switch_check cfg st) = current_step st"
  "global_step (switch_check cfg st) = global_step st"
  "best_accuracy (switch_check cfg st) = best_accuracy st"
  "current_accuracy (switch_check cfg st) = current_accuracy st"
  "steps_since_best (switch_check cfg st) = steps_since_best st"
  "n_evals (switch_check cfg st) = n_evals st"
  "effects (switch_check cfg st) = effects st"
  by (simp_all add: switch_check_def)

lemma train_step_optimizer:
  "current_optimizer (final_state (train_step cfg env st)) = current_optimizer st
   \<and> (\<exists>k. optimizers_used (effects (final_state (train_step cfg env st)))
            = optimizers_used (effects st) @ replicate k (current_optimizer st))"
proof (cases "interrupt env = Some (current_step st)")
  case True
  then have "final_state (train_step cfg env st) = st"
    by (simp add: train_step_def final_state_def)
  then show ?thesis by (simp add: exI [of _ 0])
next
  case False
  then have "current_optimizer (final_state (train_step cfg env st)) = current_optimizer st"
    and "optimizers_used (effects (final_state (train_step cfg env st)))
            = optimizers_used (effects st) @ replicate 1 (current_optimizer st)"
    by (simp_all add: train_step_def Let_def final_state_def eval_tick_effects eval_tick_fields)
  then show ?thesis by blast
qed

lemma train_step_pass_inv:
  assumes "pass_inv opt base st"
  shows "pass_inv opt base (final_state (train_step cfg env st))"
proof -
  from assms obtain k where o: "current_optimizer st = opt"
    and u: "optimizers_used (effects st) = base @ replicate k opt"
    by (auto simp: pass_inv_def)
  from train_step_optimizer [of cfg env st] obtain k' where
    o': "current_optimizer (final_state (train_step cfg env st)) = current_optimizer st"
    and u': "optimizers_used (effects (final_state (train_step cfg env st)))
            = optimizers_used (effects st) @ replicate k' (current_optimizer st)"
    by blast
  from u u' o have "optimizers_used (effects (final_state (train_step cfg env st)))
            = base @ replicate (k + k') opt"
    by (simp add: replicate_add)
  with o o' show ?thesis unfolding pass_inv_def by blast
qed

lemma train_batches_pass_inv:
  assumes "pass_inv opt base st"
  shows "pass_inv opt base (final_state (train_batches cfg env k st))"
proof -
  have "case train_batches cfg env k st of Inr st' \<Rightarrow> pass_inv opt base st'
        | Inl e \<Rightarrow> pass_inv opt base (snd e)"
  proof (rule train_batches_rule [where I = "pass_inv opt base"])
    fix s s' assume "pass_inv opt base s" "train_step cfg env s = Inr s'"
    with train_step_pass_inv [of opt base s cfg env] show "pass_inv opt base s'"
      by (simp add: final_state_def)
  next
    fix s e assume "pass_inv opt base s" "train_step cfg env s = Inl e"
    with train_step_pass_inv [of opt base s cfg env] show "pass_inv opt base (snd e)"
      by (cases e) (simp add: final_state_def)
  next
    show "pass_inv opt base st" by (rule assms)
  qed
  then show ?thesis
    by (auto simp: final_state_def split: sum.splits)
qed

lemma train_epoch_pass_inv:
  "pass_inv (current_optimizer (switch_check cfg st)) (optimizers_used (effects st))
     (final_state (train_epoch cfg env st))"
proof -
  let ?opt = "current_optimizer (switch_check cfg st)"
  have "pass_inv ?opt (optimizers_used (effects st)) (switch_check cfg st)"
    by (simp add: pass_inv_def switch_check_fields exI [of _ 0])
  from train_batches_pass_inv [OF this, of cfg env "n_batches env"]
  show ?thesis
    by (auto simp: train_epoch_def final_state_def pass_inv_def split: sum.splits)
qed


lemma train_step_optimizer_inv:
  assumes "optimizer_inv cfg st"
  shows "optimizer_inv cfg (final_state (train_step cfg env st))"
proof -
  let ?st' = "final_state (train_step cfg env st)"
  from assms obtain i j where u: "optimizers_used (effects st) = replicate i Adam @ replicate j AMSGrad"
    and a: "current_optimizer st = Adam \<longrightarrow> j = 0"
    and d: "\<not> switch_optimizers cfg \<longrightarrow> current_optimizer st = Adam"
    by (auto simp: optimizer_inv_def)
  from train_step_optimizer [of cfg env st] obtain k where
    o': "current_optimizer ?st' = current_optimizer st"
    and u': "optimizers_used (effects ?st')
            = optimizers_used (effects st) @ replicate k (current_optimizer st)"
    by blast
  have "\<exists>i' j'. optimizers_used (effects ?st') = replicate i' Adam @ replicate j' AMSGrad
          \<and> (current_optimizer ?st' = Adam \<longrightarrow> j' = 0)"
  proof (cases "current_optimizer st")
    case Adam
    with a u u' have "optimizers_used (effects ?st') = replicate (i + k) Adam @ replicate 0 AMSGrad"
      by (simp add: replicate_add)
    then show ?thesis by blast
  next
    case AMSGrad
    with u u' have "optimizers_used (effects ?st') = replicate i Adam @ replicate (j + k) AMSGrad"
      by (simp add: replicate_add)
    with AMSGrad o' show ?thesis by auto
  qed
  with o' d show ?thesis by (simp add: optimizer_inv_def)
qed

lemma train_loop_optimizer_inv:
  assumes run: "train_loop cfg env st = Some r" and i: "optimizer_inv cfg st"
  shows "optimizer_inv cfg (final_state r)"
proof -
  have "case r of Inr s \<Rightarrow> optimizer_inv cfg s \<and> \<not> loop_cond cfg s
        | Inl e \<Rightarrow> optimizer_inv cfg (snd e)"
  proof (rule train_loop_inv [OF run, where I = "optimizer_inv cfg" and J = "optimizer_inv cfg"])
    show "optimizer_inv cfg st" by (rule i)
  next
    fix s assume "optimizer_inv cfg s"
    then show "optimizer_inv cfg (switch_check cfg s)"
      by (auto simp: switch_check_def optimizer_inv_def)
  next
    fix s s' assume "optimizer_inv cfg s" "train_step cfg env s = Inr s'"
    with train_step_optimizer_inv [of cfg s env] show "optimizer_inv cfg s'"
      by (simp add: final_state_def)
  next
    fix s e assume "optimizer_inv cfg s" "train_step cfg env s = Inl e"
    with train_step_optimizer_inv [of cfg s env] show "optimizer_inv cfg (snd e)"
      by (cases e) (simp add: final_state_def)
  next
    fix s assume "optimizer_inv cfg s"
    then show "optimizer_inv cfg (s\<lparr>global_step := Suc (global_step s)\<rparr>)"
      by (simp add: optimizer_inv_def)
  qed
  then show ?thesis
    by (auto simp: final_state_def split: sum.splits)
qed

lemma initial_optimizer_inv: "optimizer_inv cfg initial_state"
  by (simp add: optimizer_inv_def initial_state_def)

lemma train_optimizer_inv:
  assumes "train cfg env = Some r"
  shows "optimizer_inv cfg (final_state r)"
  using assms
proof (cases rule: train_cases)
  case (normal st)
  from train_loop_optimizer_inv [OF normal(1) initial_optimizer_inv] normal(2)
  show ?thesis by (simp add: final_state_def optimizer_inv_def)
next
  case (interrupted st)
  from train_loop_optimizer_inv [OF interrupted(1) initial_optimizer_inv] interrupted(2)
  show ?thesis by (simp add: final_state_def optimizer_inv_def)
next
  case (failed e st)
  from train_loop_optimizer_inv [OF failed(1) initial_optimizer_inv] failed(3)
  show ?thesis by (simp add: final_state_def optimizer_inv_def)
qed

text \<open>
  C4 (as amended). The optimizer is chosen at the head of each pass over the training
  set: a pass that starts with more steps since the best value than a tenth of
  \<^verbatim>\<open>max_steps_without_improvement\<close>, with switching enabled, is trained with AMSGrad,
  any other pass with the optimizer of the pass before, and every batch of a pass is
  trained with the optimizer of that pass. The choice leaves the step counter, the epoch
  counter and the best accuracy as they are. In a whole run the batches are trained with
  Adam first and with AMSGrad afterwards, and with switching disabled with Adam only.
\<close>

theorem optimizer_chosen_at_pass_start:
  "current_optimizer (final_state (train_epoch cfg env st))
     = (if of_int (steps_since_best st) > 0.1 * (of_int (max_steps_without_improvement cfg) :: rat)
           \<and> switch_optimizers cfg
        then AMSGrad else current_optimizer st)
   \<and> (\<exists>k. optimizers_used (effects (final_state (train_epoch cfg env st)))
            = optimizers_used (effects st)
              @ replicate k (current_optimizer (final_state (train_epoch cfg env st))))
   \<and> current_step (switch_check cfg st) = current_step st
   \<and> global_step (switch_check cfg st) = global_step st
   \<and> best_accuracy (switch_check cfg st) = best_accuracy st
   \<and> (train cfg env = Some r \<longrightarrow>
        (\<exists>i j. optimizers_used (effects (final_state r)) = replicate i Adam @ replicate j AMSGrad)
        \<and> (\<not> switch_optimizers cfg \<longrightarrow>
             current_optimizer (final_state r) = Adam
             \<and> (\<exists>i. optimizers_used (effects (final_state r)) = replicate i Adam)))"
proof (intro conjI impI)
  from train_epoch_pass_inv [of cfg st env]
  show "current_optimizer (final_state (train_epoch cfg env st))
     = (if of_int (steps_since_best st) > 0.1 * (of_int (max_steps_without_improvement cfg) :: rat)
           \<and> switch_optimizers cfg
        then AMSGrad else current_optimizer st)"
    by (simp add: pass_inv_def switch_check_def)
  from train_epoch_pass_inv [of cfg st env]
  show "\<exists>k. optimizers_used (effects (final_state (train_epoch cfg env st)))
            = optimizers_used (effects st)
              @ replicate k (current_optimizer (final_state (train_epoch cfg env st)))"
    by (simp add: pass_inv_def)
  show "current_step (switch_check cfg st) = current_step st"
    "global_step (switch_check cfg st) = global_step st"
    "best_accuracy (switch_check cfg st) = best_accuracy st"
    by (simp_all add: switch_check_fields)
next
  assume t: "train cfg env = Some r"
  from train_optimizer_inv [OF t]
  show "\<exists>i j. optimizers_used (effects (final_state r)) = replicate i Adam @ replicate j AMSGrad"
    by (auto simp: optimizer_inv_def)
next
  assume t: "train cfg env = Some r" and d: "\<not> switch_optimizers cfg"
  from train_optimizer_inv [OF t] d
  show "current_optimizer (final_state r) = Adam"
    by (simp add: optimizer_inv_def)
next
  assume t: "train cfg env = Some r" and d: "\<not> switch_optimizers cfg"
  from train_optimizer_inv [OF t] d
  obtain i j where "optimizers_used (effects (final_state r)) = replicate i Adam @ replicate j AMSGrad"
    "j = 0"
    by (auto simp: optimizer_inv_def)
  then show "\<exists>i. optimizers_used (effects (final_state r)) = replicate i Adam"
    by auto
qed

subsection \<open>Exit\<close>






section \<open>Instances of the training theorems\<close>

theorem train_step_evaluation_tick_witness:
  "print_every cfg0 \<noteq> 0 \<and> interrupt tenv0 \<noteq> Some (current_step before_tick)
   \<and> (\<exists>st'. train_step cfg0 tenv0 before_tick = Inr st' \<and> current_step st' = 5
         \<and> current_accuracy st' = 1 / 8
         \<and> count_list (effects st') SaveCheckpoint = 1
         \<and> steps_since_best st' = 0 \<and> best_accuracy st' = 1 / 8)"
proof -
  have p: "print_every cfg0 \<noteq> 0"
    by (simp add: cfg0_def)
  have q: "interrupt tenv0 \<noteq> Some (current_step before_tick)"
    by (simp add: tenv0_def)
  have v: "current_step before_tick = 4" "print_every cfg0 = 5" "save_model cfg0"
    "current_accuracy before_tick = 0" "best_accuracy before_tick = 0"
    "dev_accuracy tenv0 (n_evals before_tick) = 1 / 2" "effects before_tick = []"
    by (simp_all add: cfg0_def tenv0_def before_tick_def initial_state_def)
  from train_step_evaluation_tick [OF p q] obtain st' where
    s: "train_step cfg0 tenv0 before_tick = Inr st'"
    and c: "current_step st' = current_step before_tick + 1"
    and r: "if current_step st' mod print_every cfg0 = 0
         then current_accuracy st'
                = current_accuracy before_tick * 0.75
                  + 0.25 * dev_accuracy tenv0 (n_evals before_tick)
            \<and> (if current_accuracy st' \<ge> best_accuracy before_tick
                then count_list (effects st') SaveCheckpoint
                       = count_list (effects before_tick) SaveCheckpoint
                         + (if save_model cfg0 then 1 else 0)
                   \<and> steps_since_best st' = 0
                   \<and> best_accuracy st' = current_accuracy st'
                else count_list (effects st') SaveCheckpoint
                       = count_list (effects before_tick) SaveCheckpoint
                   \<and> steps_since_best st' = steps_since_best before_tick + print_every cfg0
                   \<and> best_accuracy st' = best_accuracy before_tick)
         else count_list (effects st') SaveCheckpoint
                = count_list (effects before_tick) SaveCheckpoint
            \<and> steps_since_best st' = steps_since_best before_tick
            \<and> best_accuracy st' = best_accuracy before_tick
            \<and> current_accuracy st' = current_accuracy before_tick"
    by blast
  from c v have c5: "current_step st' = 5" by simp
  with r v have a: "current_accuracy st' = 1 / 8" by simp
  from r c5 v a have "count_list (effects st') SaveCheckpoint = 1
      \<and> steps_since_best st' = 0 \<and> best_accuracy st' = 1 / 8"
    by simp
  with s c5 a p q show ?thesis by blast
qed

text \<open>
  With \<^verbatim>\<open>save_model\<close> off, the evaluation at step 5 finds the moving average at least
  as large as the best value and saves no checkpoint.
\<close>

theorem checkpoint_without_save_model_counterexample:
  "current_step (final_state (train_step cfg_nosave tenv0 before_tick)) mod print_every cfg_nosave = 0
   \<and> current_accuracy (final_state (train_step cfg_nosave tenv0 before_tick))
       \<ge> best_accuracy before_tick
   \<and> count_list (effects (final_state (train_step cfg_nosave tenv0 before_tick))) SaveCheckpoint = 0"
  by (simp add: cfg_nosave_def cfg0_def tenv0_def before_tick_def initial_state_def
      train_step_def Let_def final_state_def eval_tick_effects eval_tick_fields)

theorem smoothed_accuracy_recurrence_witness:
  "train cfg_short tenv0 = Some (Inr run_short)
   \<and> shown_accuracies (effects run_short)
       = map (spec_smoothed (dev_accuracy tenv0)) [0..<n_evals run_short]
   \<and> shown_bests (effects run_short)
       = map (\<lambda>t. spec_best (dev_accuracy tenv0) (Suc t)) [0..<n_evals run_short]
   \<and> map (spec_smoothed (dev_accuracy tenv0)) [0..<n_evals run_short] = [1 / 8, 31 / 160]"
proof -
  have h: "train cfg_short tenv0 = Some (Inr run_short)"
    by code_simp
  have v: "map (spec_smoothed (dev_accuracy tenv0)) [0..<n_evals run_short] = [1 / 8, 31 / 160]"
    by code_simp
  have f: "final_state (Inr run_short) = run_short"
    by (simp add: final_state_def)
  from smoothed_accuracy_recurrence [OF h] have
    "shown_accuracies (effects run_short)
       = map (spec_smoothed (dev_accuracy tenv0)) [0..<n_evals run_short]
     \<and> shown_bests (effects run_short)
       = map (\<lambda>t. spec_best (dev_accuracy tenv0) (Suc t)) [0..<n_evals run_short]"
    unfolding f .
  with h v show ?thesis by blast
qed

theorem optimizer_chosen_at_pass_start_witness:
  "train cfg_noswitch tenv0 = Some (Inr run_short) \<and> \<not> switch_optimizers cfg_noswitch
   \<and> current_optimizer run_short = Adam
   \<and> (\<exists>i. optimizers_used (effects run_short) = replicate i Adam)
   \<and> current_optimizer (final_state (train_epoch cfg0 tenv0 stalled)) = AMSGrad"
proof -
  have h: "train cfg_noswitch tenv0 = Some (Inr run_short)"
    by code_simp
  have d: "\<not> switch_optimizers cfg_noswitch"
    by (simp add: cfg_noswitch_def cfg_short_def cfg0_def)
  have s: "of_int (steps_since_best stalled) > 0.1 * (of_int (max_steps_without_improvement cfg0) :: rat)
           \<and> switch_optimizers cfg0"
    by (simp add: stalled_def initial_state_def cfg0_def)
  from optimizer_chosen_at_pass_start [of cfg_noswitch tenv0 initial_state "Inr run_short"] h d
  have "current_optimizer run_short = Adam
        \<and> (\<exists>i. optimizers_used (effects run_short) = replicate i Adam)"
    by (simp add: final_state_def)
  moreover from optimizer_chosen_at_pass_start [of cfg0 tenv0 stalled "Inr run_short"] s
  have "current_optimizer (final_state (train_epoch cfg0 tenv0 stalled)) = AMSGrad"
    by simp
  ultimately show ?thesis using h d by blast
qed

text \<open>
  With an evaluation at every step and a patience of 10 steps, the third evaluation shows
  2 steps since the best value, more than a tenth of the patience. The fourth batch of the
  pass is trained with Adam all the same, the fourth evaluation resets the count, and the
  run of 8 steps ends without any batch trained with AMSGrad.
\<close>

theorem switch_at_tick_counterexample:
  "switch_optimizers cfg_dip
   \<and> 0.1 * (of_int (max_steps_without_improvement cfg_dip) :: rat) = 1
   \<and> map_option (shown_steps_since_best \<circ> effects \<circ> final_state) (train cfg_dip tenv_dip)
       = Some [0, 1, 2, 0, 1, 2, 3, 4]
   \<and> map_option (optimizers_used \<circ> effects \<circ> final_state) (train cfg_dip tenv_dip)
       = Some [Adam, Adam, Adam, Adam, Adam, Adam, Adam, Adam]
   \<and> map_option (current_optimizer \<circ> final_state) (train cfg_dip tenv_dip) = Some Adam"
  by code_simp



section \<open>Inference over several files\<close>

lemma predict_batches_log:
  "log (predict_batches bs ps) =
     log ps @ concat (map (\<lambda>b. [RunBatch b, CachePredictions b]) bs)"
  by (induction bs arbitrary: ps) (simp_all add: predict_batch_def emit_def)

lemma predict_batches_existing: "existing (predict_batches bs ps) = existing ps"
  by (induction bs arbitrary: ps) (simp_all add: predict_batch_def emit_def)

text \<open>
  C10. With an output directory given, \<^verbatim>\<open>parse_files\<close> on a non-empty list of files
  runs and caches the batches of the first file and then reads the unbound local
  variable \<^verbatim>\<open>file_output_dir\<close>: it raises before any directory is created and before
  any file is written. On an empty list it raises at the unbound \<^verbatim>\<open>file_index\<close>. So does \<^verbatim>\<open>parse\<close> for more than one input file, which takes
  this path. For one input file \<^verbatim>\<open>parse\<close> takes the path of \<^verbatim>\<open>parse_file\<close>, where a
  file of one batch is written into the directory given.
\<close>

theorem parse_files_output_dir_unbound:
  "parse_files cfg env [] (Some d) ps = Inl (UnboundLocalError ''file_index'', ps)
   \<and> (filenames \<noteq> [] \<longrightarrow>
      parse_files cfg env filenames (Some d) ps =
        Inl (UnboundLocalError ''file_output_dir'',
             predict_batches (file_batch_iterator env 0) ps))
   \<and> (1 < length conllu_files \<and> latest_checkpoint env = Some ckpt \<longrightarrow>
      (\<exists>ps'. parse cfg env conllu_files (Some d) None =
                 Inl (UnboundLocalError ''file_output_dir'', ps')
           \<and> existing ps' = initial_paths env
           \<and> log ps' = [BuildDataset conllu_files, BuildGraph, RestoreCheckpoint ckpt]
                @ concat (map (\<lambda>b. [RunBatch b, CachePredictions b])
                            (file_batch_iterator env 0))))
   \<and> (latest_checkpoint env = Some ckpt \<and> file_batch_iterator env 0 = [b] \<longrightarrow>
      (\<exists>ps'. parse cfg env [f] (Some d) None = Inr ps'
           \<and> log ps' = [BuildDataset [f], BuildGraph, RestoreCheckpoint ckpt,
                         RunBatch b, CachePredictions b]
                @ (if d \<in> set (initial_paths env) then [] else [MakeDirs d])
                @ [WriteFile (os_path_join d (snd (os_path_split f)))]))"
proof (intro conjI impI)
  show "parse_files cfg env [] (Some d) ps = Inl (UnboundLocalError ''file_index'', ps)"
    by (simp add: parse_files_def)
next
  assume "filenames \<noteq> []"
  then obtain f fs where "filenames = f # fs"
    by (cases filenames) auto
  then show "parse_files cfg env filenames (Some d) ps =
        Inl (UnboundLocalError ''file_output_dir'',
             predict_batches (file_batch_iterator env 0) ps)"
    by (simp add: parse_files_def parse_files_file_def Let_def)
next
  assume a: "1 < length conllu_files \<and> latest_checkpoint env = Some ckpt"
  then obtain f fs where fs: "conllu_files = f # fs"
    by (cases conllu_files) auto
  let ?ps = "predict_batches (file_batch_iterator env 0)
     (emit [BuildGraph, RestoreCheckpoint ckpt]
        \<lparr>log = [BuildDataset conllu_files], existing = initial_paths env\<rparr>)"
  have "parse cfg env conllu_files (Some d) None =
          Inl (UnboundLocalError ''file_output_dir'', ?ps)"
    using a fs by (simp add: parse_def truthy_def parse_files_def parse_files_file_def Let_def)
  moreover have "existing ?ps = initial_paths env"
    by (simp add: predict_batches_existing emit_def)
  moreover have "log ?ps = [BuildDataset conllu_files, BuildGraph, RestoreCheckpoint ckpt]
                @ concat (map (\<lambda>b. [RunBatch b, CachePredictions b])
                            (file_batch_iterator env 0))"
    by (simp add: predict_batches_log emit_def)
  ultimately show "\<exists>ps'. parse cfg env conllu_files (Some d) None =
                 Inl (UnboundLocalError ''file_output_dir'', ps')
           \<and> existing ps' = initial_paths env
           \<and> log ps' = [BuildDataset conllu_files, BuildGraph, RestoreCheckpoint ckpt]
                @ concat (map (\<lambda>b. [RunBatch b, CachePredictions b])
                            (file_batch_iterator env 0))"
    by blast
next
  assume "latest_checkpoint env = Some ckpt \<and> file_batch_iterator env 0 = [b]"
  then show "\<exists>ps'. parse cfg env [f] (Some d) None = Inr ps'
           \<and> log ps' = [BuildDataset [f], BuildGraph, RestoreCheckpoint ckpt,
                         RunBatch b, CachePredictions b]
                @ (if d \<in> set (initial_paths env) then [] else [MakeDirs d])
                @ [WriteFile (os_path_join d (snd (os_path_split f)))]"
    by (simp add: parse_def truthy_def parse_file_def parse_file_batch_def Let_def
        predict_batch_def emit_def ensure_dir_def)
qed

theorem parse_files_output_dir_unbound_witness:
  "[''data/a.conllu'', ''data/b.conllu''] \<noteq> []
   \<and> parse_files cfg0 penv0 [''data/a.conllu'', ''data/b.conllu''] (Some ''out'')
       \<lparr>log = [], existing = [''out'']\<rparr> =
     Inl (UnboundLocalError ''file_output_dir'',
          \<lparr>log = [RunBatch [0, 1], CachePredictions [0, 1]], existing = [''out'']\<rparr>)
   \<and> (\<exists>ps'. parse cfg0 penv0 [''data/a.conllu'', ''data/b.conllu''] (Some ''out'') None =
         Inl (UnboundLocalError ''file_output_dir'', ps')
        \<and> existing ps' = [''out'']
        \<and> log ps' = [BuildDataset [''data/a.conllu'', ''data/b.conllu''], BuildGraph,
                      RestoreCheckpoint ''saves/run/ckpt-3'',
                      RunBatch [0, 1], CachePredictions [0, 1]])
   \<and> (\<exists>ps'. parse cfg0 penv0 [''data/a.conllu''] (Some ''out'') None = Inr ps'
        \<and> log ps' = [BuildDataset [''data/a.conllu''], BuildGraph,
                      RestoreCheckpoint ''saves/run/ckpt-3'',
                      RunBatch [0, 1], CachePredictions [0, 1],
                      WriteFile ''out/a.conllu''])"
  using parse_files_output_dir_unbound [of cfg0 penv0 "''out''"
      "\<lparr>log = [], existing = [''out'']\<rparr>" "[''data/a.conllu'', ''data/b.conllu'']"
      "[''data/a.conllu'', ''data/b.conllu'']" "''saves/run/ckpt-3''" "[0, 1]"
      "''data/a.conllu''"]
  by (simp add: penv0_def predict_batch_def emit_def os_path_join_def os_path_split_def)

section \<open>The output file name\<close>




section \<open>Inference over one file\<close>


end
